theory Spec2Isabelle
  imports Main "HOL-Library.Word" "HOL-Library.Char_ord" "HOL-Library.List_Lexorder"
begin

section \<open>Payment channel keeper (internal/x/paychan/keeper.go)\<close>

text \<open>
  A shallow embedding of the payment channel keeper. The keeper's own functions
  (\<open>GetPaychan\<close>, \<open>setPaychan\<close>, \<open>CreatePaychan\<close>, \<open>ClosePaychan\<close>, \<open>paychanKey\<close>,
  \<open>GetPaychans\<close>) follow keeper.go statement by statement. The collaborators that live
  outside the repository (coin arithmetic, the bank keeper, the codec, the key-value
  store, \<open>strconv.Itoa\<close>) are modelled at their interface; each such definition says so.
\<close>

subsection \<open>Data model\<close>

text \<open>Go's \<open>[]byte\<close>; an Isabelle \<open>char\<close> is one byte. \<open>sdk.Address\<close> is a byte slice.\<close>

type_synonym bytes = string
type_synonym Address = bytes

text \<open>
  Modelled from the spec: \<open>sdk.Coin\<close> and \<open>sdk.Coins\<close>, the multi-asset amount: a sequence of
  (denomination, quantity) pairs. The quantity is an unbounded integer.
\<close>

datatype Coin = Coin (Denom: string) (Amount: int)

type_synonym Coins = "Coin list"

text \<open>
  The \<open>Paychan\<close> struct as keeper.go builds it (lines 103-108) and reads it
  (\<open>pych.sender\<close>, \<open>pych.receiver\<close>, \<open>pych.id\<close>, \<open>pych.balance\<close>). The field \<open>id\<close> is an
  \<open>int64\<close>; it is named \<open>chan_id\<close> here because \<open>id\<close> is the identity function of HOL.
\<close>

record Paychan =
  sender :: Address
  receiver :: Address
  chan_id :: "64 word"
  balance :: Coins

text \<open>Go's zero value of the struct (\<open>var pych Paychan\<close>).\<close>

definition zero_Paychan :: Paychan where
  "zero_Paychan = \<lparr>sender = [], receiver = [], chan_id = 0, balance = []\<rparr>"

text \<open>
  The \<open>sdk.Error\<close> values the keeper returns, named after the constructor the source
  calls. The argument is what the source passes to the constructor; where the source
  passes \<open>x.String()\<close> of a coin set, the coin set itself is kept.
\<close>

datatype Error =
    ErrInvalidAddress string
  | ErrInvalidCoins Coins
  | ErrUnknownAddress string
  | ErrInsufficientFunds Coins

type_synonym Tags = "(string \<times> bytes) list"

definition NewTags :: Tags where
  "NewTags = []"

text \<open>
  The codec of the keeper (\<open>k.cdc\<close>, a \<open>wire.Codec\<close>, not part of the repository) is a
  parameter. Its wire format is the type parameter \<open>'v\<close>. \<open>MustMarshalBinary\<close> and
  \<open>MustUnmarshalBinary\<close> panic on failure: \<open>None\<close> stands for the panic.
\<close>

record 'v Codec =
  MarshalBinary :: "Paychan \<Rightarrow> 'v option"
  UnmarshalBinary :: "'v \<Rightarrow> Paychan option"

record 'v Keeper =
  cdc :: "'v Codec"

text \<open>
  The part of \<open>sdk.Context\<close> the keeper touches: the key-value store selected by
  \<open>k.storeKey\<close> and the accounts behind \<open>k.coinKeeper\<close>.
\<close>

record 'v Context =
  kvstore :: "bytes \<rightharpoonup> 'v"
  accounts :: "Address \<rightharpoonup> Coins"

text \<open>The codec contract of the spec: what is serialized deserializes to the same record.\<close>

definition codec_ok :: "'v Keeper \<Rightarrow> bool" where
  "codec_ok k = (\<forall>p. Option.bind (MarshalBinary (cdc k) p) (UnmarshalBinary (cdc k)) = Some p)"

subsection \<open>Coin arithmetic\<close>

text \<open>
  Modelled from the spec: the validity rule of an amount (no zero quantity, denominations
  strictly increasing, hence sorted and without duplicates). \<open>sdk.Coins.IsValid\<close> is not
  part of the repository.
\<close>

fun IsValid :: "Coins \<Rightarrow> bool" where
  "IsValid [] = True"
| "IsValid [c] = (Amount c \<noteq> 0)"
| "IsValid (c # c' # cs) = (Amount c \<noteq> 0 \<and> Denom c < Denom c' \<and> IsValid (c' # cs))"

text \<open>
  Modelled from the spec: strictly positive in every denomination (\<open>sdk.Coins.IsPositive\<close>),
  and non-negative in every denomination (\<open>sdk.Coins.IsNotNegative\<close>).
\<close>

definition IsPositive :: "Coins \<Rightarrow> bool" where
  "IsPositive cs = (cs \<noteq> [] \<and> list_all (\<lambda>c. 0 < Amount c) cs)"

definition IsNotNegative :: "Coins \<Rightarrow> bool" where
  "IsNotNegative cs = list_all (\<lambda>c. 0 \<le> Amount c) cs"

text \<open>
  Modelled from the spec: per-denomination addition and subtraction of amounts
  (\<open>sdk.Coins.Plus\<close>, \<open>Negative\<close>, \<open>Minus\<close>): a merge of the two sequences by denomination
  that adds the quantities of a shared denomination and keeps no zero quantity.
\<close>

fun Plus :: "Coins \<Rightarrow> Coins \<Rightarrow> Coins" where
  "Plus [] bs = bs"
| "Plus as [] = as"
| "Plus (a # as) (b # bs) =
     (if Denom a < Denom b then a # Plus as (b # bs)
      else if Denom a = Denom b then
        (if Amount a + Amount b = 0 then Plus as bs
         else Coin (Denom a) (Amount a + Amount b) # Plus as bs)
      else b # Plus (a # as) bs)"

definition Negative :: "Coins \<Rightarrow> Coins" where
  "Negative cs = map (\<lambda>c. Coin (Denom c) (- Amount c)) cs"

definition Minus :: "Coins \<Rightarrow> Coins \<Rightarrow> Coins" where
  "Minus as bs = Plus as (Negative bs)"

text \<open>The quantity an amount holds in one denomination.\<close>

definition AmountOf :: "Coins \<Rightarrow> string \<Rightarrow> int" where
  "AmountOf cs d = sum_list (map Amount (filter (\<lambda>c. Denom c = d) cs))"

subsection \<open>Ledger service\<close>

definition GetCoins :: "'v Context \<Rightarrow> Address \<Rightarrow> Coins" where
  "GetCoins ctx addr = (case accounts ctx addr of None \<Rightarrow> [] | Some cs \<Rightarrow> cs)"

text \<open>
  Modelled from the spec: the debit of the ledger service (\<open>bank.Keeper.SubtractCoins\<close>). It
  fails with insufficient funds when the account would go negative in some denomination
  and then writes nothing; otherwise it stores the new balance and returns it with
  descriptive tags.
\<close>

definition SubtractCoins ::
  "'v Context \<Rightarrow> Address \<Rightarrow> Coins \<Rightarrow> Error + (Coins \<times> Tags \<times> 'v Context)" where
  "SubtractCoins ctx addr amt =
     (let oldCoins = GetCoins ctx addr;
          newCoins = Minus oldCoins amt
      in if \<not> IsNotNegative newCoins then Inl (ErrInsufficientFunds oldCoins)
         else Inr (newCoins, [(''sender'', addr)],
                   ctx\<lparr>accounts := (accounts ctx)(addr \<mapsto> newCoins)\<rparr>))"

text \<open>
  Modelled from the spec: the credit of the ledger service (\<open>bank.Keeper.AddCoins\<close>). It
  always succeeds and creates the account if it is absent. The keeper ignores what it
  returns, so only the new context is modelled.
\<close>

definition AddCoins :: "'v Context \<Rightarrow> Address \<Rightarrow> Coins \<Rightarrow> 'v Context" where
  "AddCoins ctx addr amt =
     ctx\<lparr>accounts := (accounts ctx)(addr \<mapsto> Plus (GetCoins ctx addr) amt)\<rparr>"

subsection \<open>Key encoder\<close>

text \<open>
  Modelled from the spec: the decimal-string encoding of a number (\<open>strconv.Itoa\<close> of the
  Go standard library, which is not part of the repository). The digits are produced from
  the least significant one into a buffer filled from its end, and a minus sign goes in
  front of a negative number.
\<close>

definition digit :: "nat \<Rightarrow> char" where
  "digit n = ''0123456789'' ! n"

function formatBits :: "nat \<Rightarrow> string \<Rightarrow> string" where
  "formatBits u a = (if 10 \<le> u then formatBits (u div 10) (digit (u mod 10) # a) else digit u # a)"
  by pat_completeness auto
termination
  by (relation "measure fst") auto

declare formatBits.simps [simp del]

definition Itoa :: "int \<Rightarrow> string" where
  "Itoa i = (if i < 0 then CHR ''-'' # formatBits (nat (- i)) [] else formatBits (nat i) [])"

text \<open>
  \<open>paychanKey\<close> (keeper.go 174-183). \<open>int(id)\<close> is the signed value of the \<open>int64\<close>
  (Go's \<open>int\<close> has 64 bits on the platforms the chain runs on). The parameters \<open>sender\<close>,
  \<open>receiver\<close> and \<open>id\<close> of the source are written \<open>sndr\<close>, \<open>rcvr\<close> and \<open>cid\<close> throughout,
  since the first two are the selectors of the record here.
\<close>

definition paychanKey :: "Address \<Rightarrow> Address \<Rightarrow> 64 word \<Rightarrow> bytes" where
  "paychanKey sndr rcvr cid =
     (let idAsBytes = Itoa (sint cid);
          key = sndr @ rcvr;
          key = key @ idAsBytes
      in key)"

text \<open>
  The reading of a decimal string, used to say what "the decimal-string encoding of
  \<open>id\<close>" is: the string that reads back as the number.
\<close>

definition digit_value :: "char \<Rightarrow> nat" where
  "digit_value c = of_char c - 48"

definition read_digits :: "string \<Rightarrow> nat" where
  "read_digits s = foldl (\<lambda>v c. 10 * v + digit_value c) 0 s"

definition read_decimal :: "string \<Rightarrow> int" where
  "read_decimal s = (case s of [] \<Rightarrow> 0
                     | c # ds \<Rightarrow> if c = CHR ''-'' then - int (read_digits ds) else int (read_digits s))"

definition is_digit :: "char \<Rightarrow> bool" where
  "is_digit c = (CHR ''0'' \<le> c \<and> c \<le> CHR ''9'')"

text \<open>
  A decimal numeral: an optional minus sign, then at least one digit, and no leading zero
  (only \<open>0\<close> itself starts with the digit zero). Every integer has exactly one.
\<close>

definition is_decimal :: "string \<Rightarrow> bool" where
  "is_decimal s =
     (let ds = (case s of [] \<Rightarrow> [] | c # cs \<Rightarrow> if c = CHR ''-'' then cs else s)
      in ds \<noteq> [] \<and> list_all is_digit ds \<and> (hd ds = CHR ''0'' \<longrightarrow> s = ''0''))"

subsection \<open>Channel keeper\<close>

text \<open>
  Modelled from the spec: the string representation of an address (\<open>Address.String()\<close>, not
  part of the repository), the upper-case hexadecimal rendering of its bytes, two digits a
  byte. The keeper calls it on empty addresses only, where it is the empty string.
\<close>

definition hex_digit :: "nat \<Rightarrow> char" where
  "hex_digit n = ''0123456789ABCDEF'' ! (n mod 16)"

definition AddressString :: "Address \<Rightarrow> string" where
  "AddressString bz = concat (map (\<lambda>c. [hex_digit (of_char c div 16), hex_digit (of_char c)]) bz)"

text \<open>
  \<open>GetPaychan\<close> (keeper.go 39-52). \<open>store.Get\<close> returns \<open>nil\<close> for an absent key. The
  outer \<open>option\<close> is the panic of \<open>MustUnmarshalBinary\<close>.
\<close>

definition GetPaychan ::
  "'v Keeper \<Rightarrow> 'v Context \<Rightarrow> Address \<Rightarrow> Address \<Rightarrow> 64 word \<Rightarrow> (Paychan \<times> bool) option" where
  "GetPaychan k ctx sndr rcvr cid =
     (case kvstore ctx (paychanKey sndr rcvr cid) of
        None \<Rightarrow> Some (zero_Paychan, False)
      | Some bz \<Rightarrow>
          (case UnmarshalBinary (cdc k) bz of
             None \<Rightarrow> None
           | Some pych \<Rightarrow> Some (pych, True)))"

text \<open>\<open>setPaychan\<close> (keeper.go 55-62). \<open>None\<close> is the panic of \<open>MustMarshalBinary\<close>.\<close>

definition setPaychan :: "'v Keeper \<Rightarrow> 'v Context \<Rightarrow> Paychan \<Rightarrow> 'v Context option" where
  "setPaychan k ctx pych =
     (case MarshalBinary (cdc k) pych of
        None \<Rightarrow> None
      | Some bz \<Rightarrow>
          (let pychKey = paychanKey (sender pych) (receiver pych) (chan_id pych)
           in Some (ctx\<lparr>kvstore := (kvstore ctx)(pychKey \<mapsto> bz)\<rparr>)))"

text \<open>\<open>GetPaychans\<close> (keeper.go 186-190): the source returns the \<open>nil\<close> slice it declared.\<close>

definition GetPaychans :: "'v Keeper \<Rightarrow> Address \<Rightarrow> Address \<Rightarrow> Paychan list" where
  "GetPaychans k sndr rcvr = []"

text \<open>
  \<open>CreatePaychan\<close> (keeper.go 65-115). The result is the pair of what the function
  returns (\<open>Inl\<close> the \<open>sdk.Error\<close>, \<open>Inr\<close> the tags) and the context it leaves; \<open>None\<close> is
  a panic, which aborts the transaction.
\<close>

definition CreatePaychan ::
  "'v Keeper \<Rightarrow> 'v Context \<Rightarrow> Address \<Rightarrow> Address \<Rightarrow> Coins \<Rightarrow> ((Error + Tags) \<times> 'v Context) option" where
  "CreatePaychan k ctx sndr rcvr amount =
     (if length sndr = 0 then Some (Inl (ErrInvalidAddress (AddressString sndr)), ctx)
      else if length rcvr = 0 then Some (Inl (ErrInvalidAddress (AddressString rcvr)), ctx)
      else if length amount = 0 then Some (Inl (ErrInvalidCoins amount), ctx)
      else if \<not> IsValid amount then Some (Inl (ErrInvalidCoins amount), ctx)
      else if \<not> IsPositive amount then Some (Inl (ErrInvalidCoins amount), ctx)
      else
        let cid = (word_of_nat (length (GetPaychans k sndr rcvr) + 1) :: 64 word)
        in case SubtractCoins ctx sndr amount of
             Inl err \<Rightarrow> Some (Inl err, ctx)
           | Inr (_, tags, ctx') \<Rightarrow>
               (let pych = \<lparr>sender = sndr, receiver = rcvr, chan_id = cid, balance = amount\<rparr>
                in case setPaychan k ctx' pych of
                     None \<Rightarrow> None
                   | Some ctx'' \<Rightarrow> Some (Inr tags, ctx'')))"

text \<open>\<open>ClosePaychan\<close> (keeper.go 118-171), with the same result type.\<close>

definition ClosePaychan ::
  "'v Keeper \<Rightarrow> 'v Context \<Rightarrow> Address \<Rightarrow> Address \<Rightarrow> 64 word \<Rightarrow> Coins
     \<Rightarrow> ((Error + Tags) \<times> 'v Context) option" where
  "ClosePaychan k ctx sndr rcvr cid receiverAmount =
     (if length sndr = 0 then Some (Inl (ErrInvalidAddress (AddressString sndr)), ctx)
      else if length rcvr = 0 then Some (Inl (ErrInvalidAddress (AddressString rcvr)), ctx)
      else if length receiverAmount = 0 then Some (Inl (ErrInvalidCoins receiverAmount), ctx)
      else if sint cid < 0 then Some (Inl (ErrInvalidAddress (Itoa (sint cid))), ctx)
      else if \<not> IsValid receiverAmount then Some (Inl (ErrInvalidCoins receiverAmount), ctx)
      else if \<not> IsPositive receiverAmount then Some (Inl (ErrInvalidCoins receiverAmount), ctx)
      else
        case GetPaychan k ctx sndr rcvr cid of
          None \<Rightarrow> None
        | Some (pych, exists) \<Rightarrow>
            if \<not> exists then Some (Inl (ErrUnknownAddress ''paychan not found''), ctx)
            else
              let senderAmount = Minus (balance pych) receiverAmount
              in if \<not> IsNotNegative senderAmount
                 then Some (Inl (ErrInsufficientFunds (balance pych)), ctx)
                 else
                   let ctx1 = AddCoins ctx sndr senderAmount;
                       ctx2 = AddCoins ctx1 rcvr receiverAmount;
                       pychKey = paychanKey (sender pych) (receiver pych) (chan_id pych);
                       ctx3 = ctx2\<lparr>kvstore := (kvstore ctx2)(pychKey := None)\<rparr>
                   in Some (Inr NewTags, ctx3))"

text \<open>
  The contexts the keeper can be running in: the store starts empty, only
  \<open>CreatePaychan\<close> and \<open>ClosePaychan\<close> write to it, and the other modules of the chain may
  change the accounts in any way.
\<close>

inductive reachable :: "'v Keeper \<Rightarrow> 'v Context \<Rightarrow> bool" for k :: "'v Keeper" where
  genesis: "kvstore ctx = Map.empty \<Longrightarrow> reachable k ctx"
| created: "reachable k ctx \<Longrightarrow> CreatePaychan k ctx sndr rcvr amount = Some (res, ctx')
            \<Longrightarrow> reachable k ctx'"
| closed: "reachable k ctx \<Longrightarrow> ClosePaychan k ctx sndr rcvr cid receiverAmount = Some (res, ctx')
            \<Longrightarrow> reachable k ctx'"
| ledger: "reachable k ctx \<Longrightarrow> reachable k (ctx\<lparr>accounts := acc\<rparr>)"

text \<open>
  Every record in the store decodes, and sits under the key of its own fields.
\<close>

definition store_inv :: "'v Keeper \<Rightarrow> 'v Context \<Rightarrow> bool" where
  "store_inv k ctx =
     (\<forall>key bz. kvstore ctx key = Some bz \<longrightarrow>
        (\<exists>p. UnmarshalBinary (cdc k) bz = Some p
             \<and> paychanKey (sender p) (receiver p) (chan_id p) = key))"

text \<open>
  A codec that keeps the record: a record is its own wire format. It is not the codec the
  keeper runs with (\<open>wire_keeper\<close> below); the examples built on it show what the keeper's
  functions compute on a store whose records decode to what was stored.
\<close>

definition id_keeper :: "Paychan Keeper" where
  "id_keeper = \<lparr>cdc = \<lparr>MarshalBinary = Some, UnmarshalBinary = Some\<rparr>\<rparr>"

subsection \<open>The codec the keeper runs with\<close>

text \<open>
  \<open>wire.Codec\<close> encodes a struct by reflection, and reflection reaches exported fields only.
  The fields of \<open>Paychan\<close> are \<open>sender\<close>, \<open>receiver\<close>, \<open>id\<close> and \<open>balance\<close> (keeper.go 60,
  103-108), none of them exported. So \<open>MustMarshalBinary\<close> writes no field, and the bytes
  are the same for every record; \<open>MustUnmarshalBinary\<close> sets no field, and \<open>pych\<close> keeps the
  zero value it was declared with (keeper.go 41). The bytes carry no information: the wire
  format is the unit type.
\<close>

definition wire_keeper :: "unit Keeper" where
  "wire_keeper = \<lparr>cdc = \<lparr>MarshalBinary = (\<lambda>pych. Some ()),
                          UnmarshalBinary = (\<lambda>bz. Some zero_Paychan)\<rparr>\<rparr>"

text \<open>
  A run of the keeper: sender \<open>S\<close> holds 100 gold (\<open>run_ctx0\<close>) and opens a channel of 40
  gold to receiver \<open>R\<close> (\<open>run_ctx1\<close>).
\<close>

definition run_ctx0 :: "unit Context" where
  "run_ctx0 = \<lparr>kvstore = Map.empty, accounts = [''S'' \<mapsto> [Coin ''gold'' 100]]\<rparr>"

definition run_ctx1 :: "unit Context" where
  "run_ctx1 = \<lparr>kvstore = [''SR1'' \<mapsto> ()], accounts = [''S'' \<mapsto> [Coin ''gold'' 60]]\<rparr>"

subsection \<open>A worked example\<close>

text \<open>
  The same scenario with a codec that keeps the record (\<open>ex_ctx0\<close>, \<open>ex_ctx1\<close>). In
  \<open>ex_ctx1b\<close> the sender has opened a second channel, of 25 gold, to the same receiver.
\<close>

definition ex_pych :: "Coins \<Rightarrow> Paychan" where
  "ex_pych amount = \<lparr>sender = ''S'', receiver = ''R'', chan_id = 1, balance = amount\<rparr>"

definition ex_ctx0 :: "Paychan Context" where
  "ex_ctx0 = \<lparr>kvstore = Map.empty, accounts = [''S'' \<mapsto> [Coin ''gold'' 100]]\<rparr>"

definition ex_ctx1 :: "Paychan Context" where
  "ex_ctx1 = \<lparr>kvstore = [''SR1'' \<mapsto> ex_pych [Coin ''gold'' 40]],
              accounts = [''S'' \<mapsto> [Coin ''gold'' 60]]\<rparr>"

definition ex_ctx1b :: "Paychan Context" where
  "ex_ctx1b = \<lparr>kvstore = [''SR1'' \<mapsto> ex_pych [Coin ''gold'' 25]],
               accounts = [''S'' \<mapsto> [Coin ''gold'' 35]]\<rparr>"

section \<open>Properties\<close>

subsection \<open>Amounts\<close>

lemma AmountOf_Nil: "AmountOf [] d = 0"
  by (simp add: AmountOf_def)

lemma AmountOf_Cons: "AmountOf (c # cs) d = (if Denom c = d then Amount c else 0) + AmountOf cs d"
  by (simp add: AmountOf_def)

lemma AmountOf_Plus: "AmountOf (Plus as bs) d = AmountOf as d + AmountOf bs d"
  by (induction as bs rule: Plus.induct) (auto simp: AmountOf_Nil AmountOf_Cons)

lemma AmountOf_Negative: "AmountOf (Negative cs) d = - AmountOf cs d"
  by (induction cs) (auto simp: Negative_def AmountOf_Nil AmountOf_Cons)

lemma AmountOf_Minus: "AmountOf (Minus as bs) d = AmountOf as d - AmountOf bs d"
  by (simp add: Minus_def AmountOf_Plus AmountOf_Negative)

lemma IsNotNegative_AmountOf: "IsNotNegative cs \<Longrightarrow> 0 \<le> AmountOf cs d"
  by (induction cs) (auto simp: IsNotNegative_def AmountOf_Nil AmountOf_Cons)

lemma IsValid_sorted: "IsValid cs \<Longrightarrow> sorted_wrt (<) (map Denom cs)"
proof (induction cs rule: IsValid.induct)
  case (3 c c' cs)
  then have less: "Denom c < Denom c'" and rest: "sorted_wrt (<) (map Denom (c' # cs))"
    by simp_all
  have "\<forall>x \<in> set (map Denom (c' # cs)). Denom c < x"
  proof
    fix x assume "x \<in> set (map Denom (c' # cs))"
    then have "x = Denom c' \<or> x \<in> set (map Denom cs)" by auto
    then show "Denom c < x"
    proof
      assume "x = Denom c'" with less show ?thesis by simp
    next
      assume "x \<in> set (map Denom cs)"
      with rest have "Denom c' < x" by auto
      with less show ?thesis by (rule less_trans)
    qed
  qed
  with rest show ?case by simp
qed simp_all

lemma IsValid_nonzero: "IsValid cs \<Longrightarrow> c \<in> set cs \<Longrightarrow> Amount c \<noteq> 0"
  by (induction cs rule: IsValid.induct) auto

lemma IsValid_distinct: "IsValid cs \<Longrightarrow> distinct (map Denom cs)"
  using IsValid_sorted strict_sorted_iff by blast

lemma IsValid_sorted_le: "IsValid cs \<Longrightarrow> sorted (map Denom cs)"
  using IsValid_sorted strict_sorted_iff by blast

lemma IsPositive_pos: "IsPositive cs \<Longrightarrow> c \<in> set cs \<Longrightarrow> 0 < Amount c"
  by (simp add: IsPositive_def list_all_iff)

subsection \<open>Decimal rendering\<close>

lemma lt10: "n < (10::nat) \<Longrightarrow> n \<in> {0,1,2,3,4,5,6,7,8,9}"
  by auto

lemma digit_value_digit: "n < 10 \<Longrightarrow> digit_value (digit n) = n"
  by (drule lt10) (auto simp: digit_def digit_value_def)

lemma is_digit_digit: "n < 10 \<Longrightarrow> is_digit (digit n)"
  by (drule lt10) (auto simp: digit_def is_digit_def less_eq_char_def)

lemma formatBits_step: "10 \<le> u \<Longrightarrow> formatBits u a = formatBits (u div 10) (digit (u mod 10) # a)"
  by (subst formatBits.simps) simp

lemma formatBits_last: "\<not> 10 \<le> u \<Longrightarrow> formatBits u a = digit u # a"
  by (subst formatBits.simps) simp

lemma formatBits_append: "formatBits u a = formatBits u [] @ a"
proof (induction u arbitrary: a rule: less_induct)
  case (less u)
  show ?case
  proof (cases "10 \<le> u")
    case True
    then have lt: "u div 10 < u" by simp
    have "formatBits u a = formatBits (u div 10) (digit (u mod 10) # a)"
      using True by (rule formatBits_step)
    also have "\<dots> = formatBits (u div 10) [] @ digit (u mod 10) # a"
      by (rule less.IH [OF lt])
    also have "\<dots> = (formatBits (u div 10) [] @ [digit (u mod 10)]) @ a"
      by simp
    also have "\<dots> = formatBits (u div 10) [digit (u mod 10)] @ a"
      using less.IH [OF lt, of "[digit (u mod 10)]"] by simp
    also have "\<dots> = formatBits u [] @ a"
      using True by (simp add: formatBits_step [of u "[]"])
    finally show ?thesis .
  next
    case False
    then show ?thesis by (simp add: formatBits_last)
  qed
qed

lemma read_digits_snoc: "read_digits (s @ [c]) = 10 * read_digits s + digit_value c"
  by (simp add: read_digits_def)

lemma read_digits_formatBits: "read_digits (formatBits u []) = u"
proof (induction u rule: less_induct)
  case (less u)
  show ?case
  proof (cases "10 \<le> u")
    case True
    then have lt: "u div 10 < u" by simp
    have "formatBits u [] = formatBits (u div 10) [] @ [digit (u mod 10)]"
      using True formatBits_append [of "u div 10" "[digit (u mod 10)]"]
      by (simp add: formatBits_step)
    then have "read_digits (formatBits u []) = 10 * read_digits (formatBits (u div 10) []) + digit_value (digit (u mod 10))"
      by (simp add: read_digits_snoc)
    also have "\<dots> = 10 * (u div 10) + u mod 10"
      by (simp add: less.IH [OF lt] digit_value_digit)
    finally show ?thesis by simp
  next
    case False
    then show ?thesis
      by (simp add: formatBits_last read_digits_def digit_value_digit)
  qed
qed

lemma formatBits_digits: "\<forall>c \<in> set (formatBits u []). is_digit c"
proof (induction u rule: less_induct)
  case (less u)
  show ?case
  proof (cases "10 \<le> u")
    case True
    then have lt: "u div 10 < u" by simp
    have "formatBits u [] = formatBits (u div 10) [] @ [digit (u mod 10)]"
      using True formatBits_append [of "u div 10" "[digit (u mod 10)]"]
      by (simp add: formatBits_step)
    then show ?thesis
      using less.IH [OF lt] by (simp add: is_digit_digit)
  next
    case False
    then show ?thesis
      by (simp add: formatBits_last is_digit_digit)
  qed
qed

lemma formatBits_not_Nil: "formatBits u a \<noteq> []"
proof (cases "10 \<le> u")
  case True
  then have "formatBits u a = formatBits (u div 10) [] @ digit (u mod 10) # a"
    using formatBits_append [of "u div 10" "digit (u mod 10) # a"] by (simp add: formatBits_step)
  then show ?thesis by simp
next
  case False
  then show ?thesis by (simp add: formatBits_last)
qed

lemma not_digit_minus: "\<not> is_digit (CHR ''-'')"
  by (simp add: is_digit_def less_eq_char_def)

lemma read_decimal_Itoa: "read_decimal (Itoa i) = i"
proof (cases "i < 0")
  case True
  then show ?thesis
    by (simp add: Itoa_def read_decimal_def read_digits_formatBits)
next
  case False
  obtain c ds where cd: "formatBits (nat i) [] = c # ds"
    using formatBits_not_Nil [of "nat i" "[]"] by (cases "formatBits (nat i) []") auto
  have "is_digit c"
    using formatBits_digits [of "nat i"] cd by simp
  then have "c \<noteq> CHR ''-''"
    using not_digit_minus by auto
  then have "read_decimal (c # ds) = int (read_digits (c # ds))"
    by (simp add: read_decimal_def)
  then show ?thesis
    using False cd read_digits_formatBits [of "nat i"] by (simp add: Itoa_def)
qed

lemma digit_zero: "n < 10 \<Longrightarrow> digit n = CHR ''0'' \<longleftrightarrow> n = 0"
  by (drule lt10) (auto simp: digit_def)

lemma formatBits_snoc:
  "10 \<le> u \<Longrightarrow> formatBits u [] = formatBits (u div 10) [] @ [digit (u mod 10)]"
  using formatBits_append [of "u div 10" "[digit (u mod 10)]"] by (simp add: formatBits_step)

lemma hd_formatBits: "0 < u \<Longrightarrow> hd (formatBits u []) \<noteq> CHR ''0''"
proof (induction u rule: less_induct)
  case (less u)
  show ?case
  proof (cases "10 \<le> u")
    case True
    then have lt: "u div 10 < u" and pos: "0 < u div 10"
      by (simp_all add: div_greater_zero_iff)
    have "hd (formatBits u []) = hd (formatBits (u div 10) [])"
      using True formatBits_not_Nil [of "u div 10" "[]"] by (simp add: formatBits_snoc)
    with less.IH [OF lt pos] show ?thesis by simp
  next
    case False
    with less.prems show ?thesis
      by (simp add: formatBits_last digit_zero)
  qed
qed

lemma formatBits_zero: "formatBits 0 [] = ''0''"
  by (simp add: formatBits_last digit_def)

lemma is_decimal_Itoa: "is_decimal (Itoa i)"
proof -
  obtain c ds where cd: "formatBits (nat \<bar>i\<bar>) [] = c # ds"
    using formatBits_not_Nil [of "nat \<bar>i\<bar>" "[]"] by (cases "formatBits (nat \<bar>i\<bar>) []") auto
  have dig: "list_all is_digit (c # ds)"
    using formatBits_digits [of "nat \<bar>i\<bar>"] cd by (simp add: list_all_iff)
  then have nm: "c \<noteq> CHR ''-''"
    using not_digit_minus by auto
  have z: "c = CHR ''0'' \<Longrightarrow> i = 0"
    using hd_formatBits [of "nat \<bar>i\<bar>"] cd by (cases "i = 0") auto
  show ?thesis
  proof (cases "i < 0")
    case True
    then have "Itoa i = CHR ''-'' # c # ds"
      using cd by (simp add: Itoa_def abs_if)
    with dig z True show ?thesis
      by (auto simp: is_decimal_def)
  next
    case False
    then have "Itoa i = c # ds"
      using cd by (simp add: Itoa_def abs_if)
    moreover have "c = CHR ''0'' \<Longrightarrow> c # ds = ''0''"
      using z cd formatBits_zero by auto
    ultimately show ?thesis
      using dig nm by (auto simp: is_decimal_def)
  qed
qed

subsection \<open>Key encoder\<close>

text \<open>
  C9. \<open>paychanKey\<close> is a function of its three arguments: it returns the bytes of the
  sender, then the bytes of the receiver, then the ASCII decimal numeral of the id (digits
  without a leading zero, a minus sign in front of a negative id, the string that reads
  back as the id), and equal arguments give equal keys.
\<close>

theorem paychanKey_is_concatenation:
  "paychanKey sndr rcvr cid = sndr @ rcvr @ Itoa (sint cid)
   \<and> is_decimal (Itoa (sint cid))
   \<and> read_decimal (Itoa (sint cid)) = sint cid
   \<and> (sndr' = sndr \<and> rcvr' = rcvr \<and> cid' = cid
        \<longrightarrow> paychanKey sndr' rcvr' cid' = paychanKey sndr rcvr cid)"
proof -
  have key: "paychanKey sndr rcvr cid = sndr @ rcvr @ Itoa (sint cid)"
    by (simp add: paychanKey_def)
  show ?thesis
    using key is_decimal_Itoa read_decimal_Itoa by blast
qed

theorem paychanKey_is_concatenation_witness:
  "paychanKey ''S'' ''R'' 42 = ''SR42''
   \<and> paychanKey ''S'' ''R'' (- 7) = ''SR-7''
   \<and> is_decimal ''42'' \<and> is_decimal ''-7''
   \<and> read_decimal ''42'' = 42 \<and> read_decimal ''-7'' = - 7
   \<and> ''S'' = ''S'' \<and> ''R'' = ''R'' \<and> (42 :: 64 word) = 42
   \<and> paychanKey ''S'' ''R'' 42 = paychanKey ''S'' ''R'' 42"
proof -
  have p: "Itoa (sint (42 :: 64 word)) = ''42''"
    by (simp add: Itoa_def formatBits_step formatBits_last digit_def)
  have n: "Itoa (sint (- 7 :: 64 word)) = ''-7''"
    by (simp add: Itoa_def formatBits_last digit_def)
  show ?thesis
    using paychanKey_is_concatenation [of "''S''" "''R''" 42 "''S''" "''R''" 42]
      paychanKey_is_concatenation [of "''S''" "''R''" "- 7" "''S''" "''R''" "- 7"]
    unfolding p n by simp
qed

subsection \<open>What the keeper's operations do\<close>

lemma next_id: "(word_of_nat (length (GetPaychans k sndr rcvr) + 1) :: 64 word) = 1"
  by (simp add: GetPaychans_def)

lemma CreatePaychan_Inl:
  assumes "CreatePaychan k ctx sndr rcvr amount = Some (Inl e, ctx')"
  shows "ctx' = ctx"
  using assms
  by (auto simp: CreatePaychan_def Let_def split: if_splits sum.splits prod.splits option.splits)

lemma CreatePaychan_Inr:
  assumes "CreatePaychan k ctx sndr rcvr amount = Some (Inr tags, ctx')"
  shows "sndr \<noteq> [] \<and> rcvr \<noteq> [] \<and> amount \<noteq> [] \<and> IsValid amount \<and> IsPositive amount
         \<and> IsNotNegative (Minus (GetCoins ctx sndr) amount)
         \<and> (\<exists>bz. MarshalBinary (cdc k) \<lparr>sender = sndr, receiver = rcvr, chan_id = 1, balance = amount\<rparr> = Some bz
                 \<and> kvstore ctx' = (kvstore ctx)(paychanKey sndr rcvr 1 \<mapsto> bz))
         \<and> accounts ctx' = (accounts ctx)(sndr \<mapsto> Minus (GetCoins ctx sndr) amount)"
  using assms
  by (auto simp: CreatePaychan_def SubtractCoins_def setPaychan_def GetPaychans_def Let_def
           split: if_splits sum.splits prod.splits option.splits)

lemma ClosePaychan_Inl:
  assumes "ClosePaychan k ctx sndr rcvr cid ra = Some (Inl e, ctx')"
  shows "ctx' = ctx"
  using assms
  by (auto simp: ClosePaychan_def Let_def split: if_splits sum.splits prod.splits option.splits)

lemma ClosePaychan_Inr:
  assumes "ClosePaychan k ctx sndr rcvr cid ra = Some (Inr tags, ctx')"
  shows "sndr \<noteq> [] \<and> rcvr \<noteq> [] \<and> ra \<noteq> [] \<and> \<not> sint cid < 0 \<and> IsValid ra \<and> IsPositive ra
         \<and> (\<exists>pych. GetPaychan k ctx sndr rcvr cid = Some (pych, True)
                 \<and> IsNotNegative (Minus (balance pych) ra)
                 \<and> accounts ctx' = accounts (AddCoins (AddCoins ctx sndr (Minus (balance pych) ra)) rcvr ra)
                 \<and> kvstore ctx' = (kvstore ctx)(paychanKey (sender pych) (receiver pych) (chan_id pych) := None))"
  using assms
  by (auto simp: ClosePaychan_def AddCoins_def Let_def split: if_splits sum.splits prod.splits option.splits)

lemma GetPaychan_found:
  "GetPaychan k ctx sndr rcvr cid = Some (pych, True) \<longleftrightarrow>
     (\<exists>bz. kvstore ctx (paychanKey sndr rcvr cid) = Some bz \<and> UnmarshalBinary (cdc k) bz = Some pych)"
  by (auto simp: GetPaychan_def split: option.splits)

lemma GetPaychan_absent:
  "kvstore ctx (paychanKey sndr rcvr cid) = None \<Longrightarrow> GetPaychan k ctx sndr rcvr cid = Some (zero_Paychan, False)"
  by (simp add: GetPaychan_def)

lemma codec_okD:
  "codec_ok k \<Longrightarrow> MarshalBinary (cdc k) p = Some bz \<Longrightarrow> UnmarshalBinary (cdc k) bz = Some p"
  by (auto simp: codec_ok_def Option.bind_eq_Some_conv dest: spec [of _ p])

lemma codec_ok_marshal:
  "codec_ok k \<Longrightarrow> \<exists>bz. MarshalBinary (cdc k) p = Some bz"
  by (auto simp: codec_ok_def Option.bind_eq_Some_conv dest: spec [of _ p])

lemma store_inv_genesis: "kvstore ctx = Map.empty \<Longrightarrow> store_inv k ctx"
  by (simp add: store_inv_def)

lemma store_inv_ledger: "store_inv k ctx \<Longrightarrow> store_inv k (ctx\<lparr>accounts := acc\<rparr>)"
  by (simp add: store_inv_def)

lemma store_inv_create:
  assumes ok: "codec_ok k" and inv: "store_inv k ctx"
    and cr: "CreatePaychan k ctx sndr rcvr amount = Some (res, ctx')"
  shows "store_inv k ctx'"
proof (cases res)
  case (Inl e)
  with cr inv show ?thesis by (auto dest: CreatePaychan_Inl)
next
  case (Inr tags)
  with cr have "CreatePaychan k ctx sndr rcvr amount = Some (Inr tags, ctx')"
    by simp
  from CreatePaychan_Inr [OF this] obtain bz where
    m: "MarshalBinary (cdc k) \<lparr>sender = sndr, receiver = rcvr, chan_id = 1, balance = amount\<rparr> = Some bz"
    and st: "kvstore ctx' = (kvstore ctx)(paychanKey sndr rcvr 1 \<mapsto> bz)"
    by blast
  have u: "UnmarshalBinary (cdc k) bz = Some \<lparr>sender = sndr, receiver = rcvr, chan_id = 1, balance = amount\<rparr>"
    using ok m by (rule codec_okD)
  show ?thesis
    unfolding store_inv_def
  proof (intro allI impI)
    fix key v assume a: "kvstore ctx' key = Some v"
    show "\<exists>p. UnmarshalBinary (cdc k) v = Some p \<and> paychanKey (sender p) (receiver p) (chan_id p) = key"
    proof (cases "key = paychanKey sndr rcvr 1")
      case True
      with a st have "v = bz" by simp
      with u True show ?thesis by simp
    next
      case False
      with a st have "kvstore ctx key = Some v" by simp
      with inv show ?thesis by (simp add: store_inv_def)
    qed
  qed
qed

lemma store_inv_close:
  assumes inv: "store_inv k ctx"
    and cl: "ClosePaychan k ctx sndr rcvr cid ra = Some (res, ctx')"
  shows "store_inv k ctx'"
proof (cases res)
  case (Inl e)
  with cl inv show ?thesis by (auto dest: ClosePaychan_Inl)
next
  case (Inr tags)
  with cl have "ClosePaychan k ctx sndr rcvr cid ra = Some (Inr tags, ctx')"
    by simp
  from ClosePaychan_Inr [OF this] obtain pych :: Paychan where
    "kvstore ctx' = (kvstore ctx)(paychanKey (sender pych) (receiver pych) (chan_id pych) := None)"
    by blast
  with inv show ?thesis
    by (auto simp: store_inv_def split: if_splits)
qed

lemma reachable_store_inv:
  assumes "codec_ok k" and "reachable k ctx"
  shows "store_inv k ctx"
  using assms(2)
proof (induction rule: reachable.induct)
  case (genesis ctx)
  then show ?case by (rule store_inv_genesis)
next
  case (created ctx sndr rcvr amount res ctx')
  then show ?case using assms(1) store_inv_create by blast
next
  case (closed ctx sndr rcvr cid receiverAmount res ctx')
  then show ?case using store_inv_close by blast
next
  case (ledger ctx acc)
  then show ?case by (simp add: store_inv_ledger)
qed

lemma GetCoins_AddCoins:
  "GetCoins (AddCoins ctx a amt) x = (if x = a then Plus (GetCoins ctx a) amt else GetCoins ctx x)"
  by (simp add: GetCoins_def AddCoins_def)

lemma GetCoins_accounts: "accounts ctx' = accounts ctx \<Longrightarrow> GetCoins ctx' x = GetCoins ctx x"
  by (simp add: GetCoins_def)

lemma created_record:
  assumes ok: "codec_ok k"
    and cr: "CreatePaychan k ctx0 sndr rcvr amount = Some (Inr tags, ctx1)"
    and kept: "kvstore ctx (paychanKey sndr rcvr 1) = kvstore ctx1 (paychanKey sndr rcvr 1)"
  shows "GetPaychan k ctx sndr rcvr 1
           = Some (\<lparr>sender = sndr, receiver = rcvr, chan_id = 1, balance = amount\<rparr>, True)"
proof -
  from CreatePaychan_Inr [OF cr] obtain bz where
    m: "MarshalBinary (cdc k) \<lparr>sender = sndr, receiver = rcvr, chan_id = 1, balance = amount\<rparr> = Some bz"
    and st: "kvstore ctx1 = (kvstore ctx0)(paychanKey sndr rcvr 1 \<mapsto> bz)"
    by blast
  have "kvstore ctx (paychanKey sndr rcvr 1) = Some bz"
    using kept st by simp
  moreover have "UnmarshalBinary (cdc k) bz
                   = Some \<lparr>sender = sndr, receiver = rcvr, chan_id = 1, balance = amount\<rparr>"
    using ok m by (rule codec_okD)
  ultimately show ?thesis
    by (simp add: GetPaychan_def)
qed

lemma ClosePaychan_absent:
  assumes "kvstore ctx (paychanKey sndr rcvr cid) = None"
  shows "\<exists>e. ClosePaychan k ctx sndr rcvr cid ra = Some (Inl e, ctx)"
  using assms by (simp add: ClosePaychan_def GetPaychan_def)

lemma ClosePaychan_not_found:
  assumes "kvstore ctx (paychanKey sndr rcvr cid) = None"
    and "sndr \<noteq> []" "rcvr \<noteq> []" "ra \<noteq> []" "\<not> sint cid < 0" "IsValid ra" "IsPositive ra"
  shows "ClosePaychan k ctx sndr rcvr cid ra = Some (Inl (ErrUnknownAddress ''paychan not found''), ctx)"
  using assms by (simp add: ClosePaychan_def GetPaychan_def)

lemma closed_key_deleted:
  assumes inv: "store_inv k ctx"
    and cl: "ClosePaychan k ctx sndr rcvr cid ra = Some (Inr tags, ctx')"
  shows "kvstore ctx' (paychanKey sndr rcvr cid) = None"
proof -
  from ClosePaychan_Inr [OF cl] obtain pych :: Paychan where
    g: "GetPaychan k ctx sndr rcvr cid = Some (pych, True)"
    and st: "kvstore ctx' = (kvstore ctx)(paychanKey (sender pych) (receiver pych) (chan_id pych) := None)"
    by blast
  from g obtain bz where
    s: "kvstore ctx (paychanKey sndr rcvr cid) = Some bz" and u: "UnmarshalBinary (cdc k) bz = Some pych"
    by (auto simp: GetPaychan_found)
  from inv s obtain p where
    "UnmarshalBinary (cdc k) bz = Some p"
    and "paychanKey (sender p) (receiver p) (chan_id p) = paychanKey sndr rcvr cid"
    unfolding store_inv_def by blast
  with u have "paychanKey (sender pych) (receiver pych) (chan_id pych) = paychanKey sndr rcvr cid"
    by simp
  with st show ?thesis by simp
qed

subsection \<open>A keeper whose codec round-trips\<close>

text \<open>
  What \<open>CreatePaychan\<close> and \<open>ClosePaychan\<close> do when the codec returns the record that was
  stored (\<open>codec_ok\<close>): the channel created is the one closed, its balance is split between
  the two parties, and a second close finds no channel. The lemmas show what the code of the
  two functions is written to do. They are not about a run of the keeper of the repository,
  whose codec does not round-trip (\<open>wire_keeper_not_codec_ok\<close> below).
\<close>

lemma conservation_if_round_trip:
  assumes ok: "codec_ok k"
    and cr: "CreatePaychan k ctx0 sndr rcvr amount = Some (Inr tags, ctx1)"
    and kept: "kvstore ctx (paychanKey sndr rcvr 1) = kvstore ctx1 (paychanKey sndr rcvr 1)"
    and cl: "ClosePaychan k ctx sndr rcvr 1 receiverAmount = Some (Inr tags', ctx2)"
  shows "(\<forall>d. AmountOf (GetCoins ctx1 sndr) d = AmountOf (GetCoins ctx0 sndr) d - AmountOf amount d)
       \<and> (\<forall>d. AmountOf (Minus amount receiverAmount) d + AmountOf receiverAmount d = AmountOf amount d)
       \<and> accounts ctx2
           = accounts (AddCoins (AddCoins ctx sndr (Minus amount receiverAmount)) rcvr receiverAmount)
       \<and> (sndr \<noteq> rcvr \<longrightarrow>
            (\<forall>d. AmountOf (GetCoins ctx2 sndr) d
                   = AmountOf (GetCoins ctx sndr) d + AmountOf (Minus amount receiverAmount) d
                \<and> AmountOf (GetCoins ctx2 rcvr) d
                   = AmountOf (GetCoins ctx rcvr) d + AmountOf receiverAmount d))
       \<and> (sndr = rcvr \<longrightarrow>
            (\<forall>d. AmountOf (GetCoins ctx2 sndr) d = AmountOf (GetCoins ctx sndr) d + AmountOf amount d))
       \<and> (\<forall>x. x \<noteq> sndr \<and> x \<noteq> rcvr \<longrightarrow> accounts ctx2 x = accounts ctx x)"
proof -
  let ?sa = "Minus amount receiverAmount"
  have debit: "accounts ctx1 = (accounts ctx0)(sndr \<mapsto> Minus (GetCoins ctx0 sndr) amount)"
    using CreatePaychan_Inr [OF cr] by blast
  have c1: "\<forall>d. AmountOf (GetCoins ctx1 sndr) d = AmountOf (GetCoins ctx0 sndr) d - AmountOf amount d"
    using debit by (simp add: GetCoins_def AmountOf_Minus)
  have c2: "\<forall>d. AmountOf ?sa d + AmountOf receiverAmount d = AmountOf amount d"
    by (simp add: AmountOf_Minus)
  have g: "GetPaychan k ctx sndr rcvr 1
             = Some (\<lparr>sender = sndr, receiver = rcvr, chan_id = 1, balance = amount\<rparr>, True)"
    using ok cr kept by (rule created_record)
  from ClosePaychan_Inr [OF cl] obtain pych :: Paychan where
    g': "GetPaychan k ctx sndr rcvr 1 = Some (pych, True)"
    and acc: "accounts ctx2
                = accounts (AddCoins (AddCoins ctx sndr (Minus (balance pych) receiverAmount)) rcvr receiverAmount)"
    by blast
  from g g' have "balance pych = amount"
    by auto
  with acc have c3: "accounts ctx2 = accounts (AddCoins (AddCoins ctx sndr ?sa) rcvr receiverAmount)"
    by simp
  then have get: "\<And>x. GetCoins ctx2 x = GetCoins (AddCoins (AddCoins ctx sndr ?sa) rcvr receiverAmount) x"
    by (rule GetCoins_accounts)
  have c4: "sndr \<noteq> rcvr \<longrightarrow>
            (\<forall>d. AmountOf (GetCoins ctx2 sndr) d = AmountOf (GetCoins ctx sndr) d + AmountOf ?sa d
                \<and> AmountOf (GetCoins ctx2 rcvr) d = AmountOf (GetCoins ctx rcvr) d + AmountOf receiverAmount d)"
    by (simp add: get GetCoins_AddCoins AmountOf_Plus)
  have c5: "sndr = rcvr \<longrightarrow>
            (\<forall>d. AmountOf (GetCoins ctx2 sndr) d = AmountOf (GetCoins ctx sndr) d + AmountOf amount d)"
    by (simp add: get GetCoins_AddCoins AmountOf_Plus AmountOf_Minus)
  have c6: "\<forall>x. x \<noteq> sndr \<and> x \<noteq> rcvr \<longrightarrow> accounts ctx2 x = accounts ctx x"
    by (simp add: c3 AddCoins_def)
  from c1 c2 c3 c4 c5 c6 show ?thesis
    by blast
qed

lemma close_exactly_once_if_round_trip:
  assumes ok: "codec_ok k"
    and reach: "reachable k ctx"
    and cl: "ClosePaychan k ctx sndr rcvr cid receiverAmount = Some (Inr tags, ctx')"
  shows "kvstore ctx' (paychanKey sndr rcvr cid) = None
       \<and> ClosePaychan k ctx' sndr rcvr cid receiverAmount
           = Some (Inl (ErrUnknownAddress ''paychan not found''), ctx')
       \<and> (\<forall>ra. \<exists>e. ClosePaychan k ctx' sndr rcvr cid ra = Some (Inl e, ctx'))
       \<and> (\<forall>ra. ra \<noteq> [] \<and> IsValid ra \<and> IsPositive ra \<longrightarrow>
              ClosePaychan k ctx' sndr rcvr cid ra
                = Some (Inl (ErrUnknownAddress ''paychan not found''), ctx'))"
proof -
  have inv: "store_inv k ctx"
    using ok reach by (rule reachable_store_inv)
  have gone: "kvstore ctx' (paychanKey sndr rcvr cid) = None"
    using inv cl by (rule closed_key_deleted)
  have pre: "sndr \<noteq> []" "rcvr \<noteq> []" "receiverAmount \<noteq> []" "\<not> sint cid < 0"
    "IsValid receiverAmount" "IsPositive receiverAmount"
    using ClosePaychan_Inr [OF cl] by blast+
  have again: "ClosePaychan k ctx' sndr rcvr cid receiverAmount
                 = Some (Inl (ErrUnknownAddress ''paychan not found''), ctx')"
    using gone pre by (rule ClosePaychan_not_found)
  have fails: "\<forall>ra. \<exists>e. ClosePaychan k ctx' sndr rcvr cid ra = Some (Inl e, ctx')"
    using gone by (simp add: ClosePaychan_absent)
  have valid: "\<forall>ra. ra \<noteq> [] \<and> IsValid ra \<and> IsPositive ra \<longrightarrow>
                 ClosePaychan k ctx' sndr rcvr cid ra
                   = Some (Inl (ErrUnknownAddress ''paychan not found''), ctx')"
    using gone pre(1,2,4) by (simp add: ClosePaychan_not_found)
  from gone again fails valid show ?thesis
    by blast
qed

subsection \<open>The worked example, evaluated\<close>

lemma key_SR1: "paychanKey ''S'' ''R'' 1 = ''SR1''"
  by (simp add: paychanKey_def Itoa_def formatBits_last digit_def)

lemma ex_create:
  "CreatePaychan id_keeper ex_ctx0 ''S'' ''R'' [Coin ''gold'' 40] = Some (Inr [(''sender'', ''S'')], ex_ctx1)"
  by (simp add: CreatePaychan_def SubtractCoins_def setPaychan_def GetPaychans_def GetCoins_def
      IsPositive_def IsNotNegative_def Minus_def Negative_def key_SR1 id_keeper_def Let_def
      ex_ctx0_def ex_ctx1_def ex_pych_def)

lemma ex_get: "GetPaychan id_keeper ex_ctx1 ''S'' ''R'' 1 = Some (ex_pych [Coin ''gold'' 40], True)"
  by (simp add: GetPaychan_def key_SR1 ex_ctx1_def id_keeper_def)

subsection \<open>The keeper's codec at work\<close>

lemma wire_keeper_not_codec_ok: "\<not> codec_ok wire_keeper"
proof
  assume "codec_ok wire_keeper"
  then have "Option.bind
               (MarshalBinary (cdc wire_keeper)
                  \<lparr>sender = ''S'', receiver = ''R'', chan_id = 1, balance = []\<rparr>)
               (UnmarshalBinary (cdc wire_keeper))
             = Some \<lparr>sender = ''S'', receiver = ''R'', chan_id = 1, balance = []\<rparr>"
    unfolding codec_ok_def by (rule spec)
  then show False
    by (simp add: wire_keeper_def zero_Paychan_def)
qed

lemma wire_GetPaychan:
  "GetPaychan wire_keeper ctx sndr rcvr cid
     = Some (zero_Paychan, kvstore ctx (paychanKey sndr rcvr cid) \<noteq> None)"
  by (simp add: GetPaychan_def wire_keeper_def split: option.splits)







subsection \<open>Conservation\<close>


subsection \<open>Closing\<close>


text \<open>
  C4. \<open>ClosePaychan\<close> never succeeds when \<open>receiverAmount\<close> exceeds the locked balance in some
  denomination \<open>d\<close>: the subtraction is then not non-negative, the call returns an error and
  leaves the store and the accounts as they are; once the checks on the arguments that come
  before the lookup have passed, the error is \<open>ErrInsufficientFunds\<close>.
\<close>

theorem close_rejects_overdraw:
  assumes g: "GetPaychan k ctx sndr rcvr cid = Some (pych, True)"
    and neg: "AmountOf (balance pych) d - AmountOf receiverAmount d < 0"
  shows "\<not> IsNotNegative (Minus (balance pych) receiverAmount)
       \<and> (\<exists>e. ClosePaychan k ctx sndr rcvr cid receiverAmount = Some (Inl e, ctx))
       \<and> (sndr \<noteq> [] \<and> rcvr \<noteq> [] \<and> receiverAmount \<noteq> [] \<and> \<not> sint cid < 0
            \<and> IsValid receiverAmount \<and> IsPositive receiverAmount \<longrightarrow>
          ClosePaychan k ctx sndr rcvr cid receiverAmount
            = Some (Inl (ErrInsufficientFunds (balance pych)), ctx))"
proof -
  have "AmountOf (Minus (balance pych) receiverAmount) d < 0"
    using neg by (simp add: AmountOf_Minus)
  then have n: "\<not> IsNotNegative (Minus (balance pych) receiverAmount)"
    using IsNotNegative_AmountOf [of "Minus (balance pych) receiverAmount" d] by auto
  have a: "\<exists>e. ClosePaychan k ctx sndr rcvr cid receiverAmount = Some (Inl e, ctx)"
    using g n by (simp add: ClosePaychan_def)
  have b: "sndr \<noteq> [] \<and> rcvr \<noteq> [] \<and> receiverAmount \<noteq> [] \<and> \<not> sint cid < 0
            \<and> IsValid receiverAmount \<and> IsPositive receiverAmount \<longrightarrow>
          ClosePaychan k ctx sndr rcvr cid receiverAmount
            = Some (Inl (ErrInsufficientFunds (balance pych)), ctx)"
    using g n by (simp add: ClosePaychan_def)
  from n a b show ?thesis by blast
qed

theorem close_rejects_overdraw_witness:
  "GetPaychan id_keeper ex_ctx1 ''S'' ''R'' 1 = Some (ex_pych [Coin ''gold'' 40], True)
   \<and> AmountOf [Coin ''gold'' 40] ''gold'' - AmountOf [Coin ''gold'' 41] ''gold'' < 0
   \<and> ClosePaychan id_keeper ex_ctx1 ''S'' ''R'' 1 [Coin ''gold'' 41]
       = Some (Inl (ErrInsufficientFunds [Coin ''gold'' 40]), ex_ctx1)"
proof -
  have neg: "AmountOf (balance (ex_pych [Coin ''gold'' 40])) ''gold'' - AmountOf [Coin ''gold'' 41] ''gold'' < 0"
    by (simp add: AmountOf_def ex_pych_def)
  show ?thesis
    using close_rejects_overdraw [OF ex_get neg] ex_get neg
    by (simp add: ex_pych_def IsPositive_def)
qed

subsection \<open>Creating\<close>

lemma AddressString_Nil: "AddressString [] = []"
  by (simp add: AddressString_def)

lemma IsValid_imp_canonical:
  "IsValid cs \<Longrightarrow> distinct (map Denom cs) \<and> sorted (map Denom cs) \<and> (\<forall>c \<in> set cs. Amount c \<noteq> 0)"
  using IsValid_distinct IsValid_sorted_le IsValid_nonzero by blast

lemma not_canonical_rejected:
  assumes "amount = [] \<or> \<not> distinct (map Denom amount) \<or> \<not> sorted (map Denom amount)
           \<or> (\<exists>c \<in> set amount. Amount c \<le> 0)"
  shows "amount = [] \<or> \<not> IsValid amount \<or> \<not> IsPositive amount"
proof -
  have "(\<exists>c \<in> set amount. Amount c \<le> 0) \<Longrightarrow> \<not> IsPositive amount"
    using IsPositive_pos by fastforce
  with assms show ?thesis
    using IsValid_imp_canonical by blast
qed

lemma CreatePaychan_invalid_amount:
  assumes "sndr \<noteq> []" "rcvr \<noteq> []" "amount = [] \<or> \<not> IsValid amount \<or> \<not> IsPositive amount"
  shows "CreatePaychan k ctx sndr rcvr amount = Some (Inl (ErrInvalidCoins amount), ctx)"
  using assms by (auto simp: CreatePaychan_def)

text \<open>
  C6. \<open>CreatePaychan\<close> checks its arguments in order and the first failure wins: an empty
  sender gives \<open>ErrInvalidAddress\<close>, whatever the other arguments; otherwise an empty
  receiver gives \<open>ErrInvalidAddress\<close>; otherwise an amount that is empty, has a duplicate
  denomination, is not sorted, or has a zero or negative quantity gives \<open>ErrInvalidCoins\<close>
  (these are the amounts that \<open>IsValid\<close> or \<open>IsPositive\<close> refuse). Whenever the call
  returns an error, the context (store and accounts) is the one it was given.
\<close>

theorem create_validation_order:
  "(sndr = [] \<longrightarrow>
      CreatePaychan k ctx sndr rcvr amount = Some (Inl (ErrInvalidAddress []), ctx))
   \<and> (sndr \<noteq> [] \<and> rcvr = [] \<longrightarrow>
      CreatePaychan k ctx sndr rcvr amount = Some (Inl (ErrInvalidAddress []), ctx))
   \<and> (sndr \<noteq> [] \<and> rcvr \<noteq> []
        \<and> (amount = [] \<or> \<not> distinct (map Denom amount) \<or> \<not> sorted (map Denom amount)
             \<or> (\<exists>c \<in> set amount. Amount c \<le> 0)) \<longrightarrow>
      CreatePaychan k ctx sndr rcvr amount = Some (Inl (ErrInvalidCoins amount), ctx))
   \<and> (sndr \<noteq> [] \<and> rcvr \<noteq> [] \<and> (amount = [] \<or> \<not> IsValid amount \<or> \<not> IsPositive amount) \<longrightarrow>
      CreatePaychan k ctx sndr rcvr amount = Some (Inl (ErrInvalidCoins amount), ctx))
   \<and> (\<forall>e ctx'. CreatePaychan k ctx sndr rcvr amount = Some (Inl e, ctx') \<longrightarrow> ctx' = ctx)"
proof -
  have a: "sndr = [] \<longrightarrow>
      CreatePaychan k ctx sndr rcvr amount = Some (Inl (ErrInvalidAddress []), ctx)"
    by (simp add: CreatePaychan_def AddressString_Nil)
  have b: "sndr \<noteq> [] \<and> rcvr = [] \<longrightarrow>
      CreatePaychan k ctx sndr rcvr amount = Some (Inl (ErrInvalidAddress []), ctx)"
    by (simp add: CreatePaychan_def AddressString_Nil)
  have d: "sndr \<noteq> [] \<and> rcvr \<noteq> [] \<and> (amount = [] \<or> \<not> IsValid amount \<or> \<not> IsPositive amount) \<longrightarrow>
      CreatePaychan k ctx sndr rcvr amount = Some (Inl (ErrInvalidCoins amount), ctx)"
    using CreatePaychan_invalid_amount by blast
  have c: "sndr \<noteq> [] \<and> rcvr \<noteq> []
        \<and> (amount = [] \<or> \<not> distinct (map Denom amount) \<or> \<not> sorted (map Denom amount)
             \<or> (\<exists>c \<in> set amount. Amount c \<le> 0)) \<longrightarrow>
      CreatePaychan k ctx sndr rcvr amount = Some (Inl (ErrInvalidCoins amount), ctx)"
    using d not_canonical_rejected [of amount] by blast
  have e: "\<forall>e ctx'. CreatePaychan k ctx sndr rcvr amount = Some (Inl e, ctx') \<longrightarrow> ctx' = ctx"
    using CreatePaychan_Inl by blast
  from a b c d e show ?thesis
    by blast
qed

theorem create_validation_order_witness:
  "CreatePaychan id_keeper ex_ctx0 [] [] [] = Some (Inl (ErrInvalidAddress []), ex_ctx0)
   \<and> CreatePaychan id_keeper ex_ctx0 ''S'' [] [] = Some (Inl (ErrInvalidAddress []), ex_ctx0)
   \<and> CreatePaychan id_keeper ex_ctx0 ''S'' ''R'' [] = Some (Inl (ErrInvalidCoins []), ex_ctx0)
   \<and> CreatePaychan id_keeper ex_ctx0 ''S'' ''R'' [Coin ''gold'' 1, Coin ''gold'' 2]
       = Some (Inl (ErrInvalidCoins [Coin ''gold'' 1, Coin ''gold'' 2]), ex_ctx0)
   \<and> CreatePaychan id_keeper ex_ctx0 ''S'' ''R'' [Coin ''silver'' 1, Coin ''gold'' 2]
       = Some (Inl (ErrInvalidCoins [Coin ''silver'' 1, Coin ''gold'' 2]), ex_ctx0)
   \<and> CreatePaychan id_keeper ex_ctx0 ''S'' ''R'' [Coin ''gold'' 0]
       = Some (Inl (ErrInvalidCoins [Coin ''gold'' 0]), ex_ctx0)
   \<and> CreatePaychan id_keeper ex_ctx0 ''S'' ''R'' [Coin ''gold'' (- 5)]
       = Some (Inl (ErrInvalidCoins [Coin ''gold'' (- 5)]), ex_ctx0)"
  using create_validation_order [of "[]" id_keeper ex_ctx0 "[]" "[]"]
    create_validation_order [of "''S''" id_keeper ex_ctx0 "[]" "[]"]
    create_validation_order [of "''S''" id_keeper ex_ctx0 "''R''" "[]"]
    create_validation_order [of "''S''" id_keeper ex_ctx0 "''R''" "[Coin ''gold'' 1, Coin ''gold'' 2]"]
    create_validation_order [of "''S''" id_keeper ex_ctx0 "''R''" "[Coin ''silver'' 1, Coin ''gold'' 2]"]
    create_validation_order [of "''S''" id_keeper ex_ctx0 "''R''" "[Coin ''gold'' 0]"]
    create_validation_order [of "''S''" id_keeper ex_ctx0 "''R''" "[Coin ''gold'' (- 5)]"]
  by simp

lemma SubtractCoins_Inl:
  "SubtractCoins ctx addr amt = Inl err \<Longrightarrow>
     \<not> IsNotNegative (Minus (GetCoins ctx addr) amt) \<and> err = ErrInsufficientFunds (GetCoins ctx addr)"
  by (auto simp: SubtractCoins_def Let_def split: if_splits)

lemma SubtractCoins_insufficient:
  assumes "AmountOf (GetCoins ctx addr) d < AmountOf amt d"
  shows "SubtractCoins ctx addr amt = Inl (ErrInsufficientFunds (GetCoins ctx addr))"
proof -
  have "AmountOf (Minus (GetCoins ctx addr) amt) d < 0"
    using assms by (simp add: AmountOf_Minus)
  then have "\<not> IsNotNegative (Minus (GetCoins ctx addr) amt)"
    using IsNotNegative_AmountOf [of "Minus (GetCoins ctx addr) amt" d] by auto
  then show ?thesis
    by (simp add: SubtractCoins_def)
qed

text \<open>
  C7. If the debit of \<open>amount\<close> from the sender's account fails, \<open>CreatePaychan\<close> returns an
  error and leaves the context as it is, so no channel record is written; once the argument
  checks have passed, the error is the one the debit returned, \<open>ErrInsufficientFunds\<close>.
\<close>

theorem create_debit_failure:
  assumes debit: "SubtractCoins ctx sndr amount = Inl err"
  shows "(\<exists>e. CreatePaychan k ctx sndr rcvr amount = Some (Inl e, ctx))
       \<and> (sndr \<noteq> [] \<and> rcvr \<noteq> [] \<and> amount \<noteq> [] \<and> IsValid amount \<and> IsPositive amount \<longrightarrow>
            CreatePaychan k ctx sndr rcvr amount = Some (Inl err, ctx)
            \<and> err = ErrInsufficientFunds (GetCoins ctx sndr))"
proof -
  have a: "\<exists>e. CreatePaychan k ctx sndr rcvr amount = Some (Inl e, ctx)"
    using debit by (simp add: CreatePaychan_def)
  have b: "sndr \<noteq> [] \<and> rcvr \<noteq> [] \<and> amount \<noteq> [] \<and> IsValid amount \<and> IsPositive amount \<longrightarrow>
            CreatePaychan k ctx sndr rcvr amount = Some (Inl err, ctx)"
    using debit by (simp add: CreatePaychan_def)
  have c: "err = ErrInsufficientFunds (GetCoins ctx sndr)"
    using SubtractCoins_Inl [OF debit] by simp
  from a b c show ?thesis by blast
qed

lemma ex_debit_fails:
  "SubtractCoins ex_ctx0 ''S'' [Coin ''gold'' 101] = Inl (ErrInsufficientFunds [Coin ''gold'' 100])"
  by (simp add: SubtractCoins_def GetCoins_def Minus_def Negative_def IsNotNegative_def ex_ctx0_def)

theorem create_debit_failure_witness:
  "SubtractCoins ex_ctx0 ''S'' [Coin ''gold'' 101] = Inl (ErrInsufficientFunds [Coin ''gold'' 100])
   \<and> CreatePaychan id_keeper ex_ctx0 ''S'' ''R'' [Coin ''gold'' 101]
       = Some (Inl (ErrInsufficientFunds [Coin ''gold'' 100]), ex_ctx0)
   \<and> kvstore ex_ctx0 = Map.empty"
  using create_debit_failure [OF ex_debit_fails, of id_keeper "''R''"] ex_debit_fails
  by (simp add: IsPositive_def ex_ctx0_def)

subsection \<open>Lookup\<close>

lemma setPaychan_get:
  assumes "codec_ok k"
  shows "\<exists>ctx'. setPaychan k ctx p = Some ctx'
           \<and> GetPaychan k ctx' (sender p) (receiver p) (chan_id p) = Some (p, True)"
proof -
  obtain bz where m: "MarshalBinary (cdc k) p = Some bz"
    using assms codec_ok_marshal by blast
  with assms have "UnmarshalBinary (cdc k) bz = Some p"
    by (rule codec_okD)
  with m show ?thesis
    by (simp add: setPaychan_def GetPaychan_def)
qed

text \<open>
  C8. For a key that is absent from the store, \<open>GetPaychan\<close> returns the zero-value channel
  with \<open>found = False\<close> (\<open>GetPaychan_absent\<close>), and for a key that is present it returns
  \<open>found = True\<close> with what the codec decodes (\<open>GetPaychan_found\<close>). What it decodes is
  meant to be the channel \<open>setPaychan\<close> stored (\<open>setPaychan_get\<close>, for a codec that
  round-trips). In the run of the keeper it is not: the channel of \<open>S\<close> and \<open>R\<close> with id 1
  and 40 gold is stored, and read back as the zero-value channel with \<open>found = True\<close>.
\<close>

theorem stored_channel_decodes_to_zero_value:
  "setPaychan wire_keeper run_ctx0 \<lparr>sender = ''S'', receiver = ''R'', chan_id = 1, balance = [Coin ''gold'' 40]\<rparr>
     = Some (run_ctx0\<lparr>kvstore := [''SR1'' \<mapsto> ()]\<rparr>)
   \<and> GetPaychan wire_keeper (run_ctx0\<lparr>kvstore := [''SR1'' \<mapsto> ()]\<rparr>) ''S'' ''R'' 1
       = Some (\<lparr>sender = [], receiver = [], chan_id = 0, balance = []\<rparr>, True)
   \<and> GetPaychan wire_keeper run_ctx1 ''S'' ''R'' 1 = Some (zero_Paychan, True)"
proof -
  have "setPaychan wire_keeper run_ctx0
          \<lparr>sender = ''S'', receiver = ''R'', chan_id = 1, balance = [Coin ''gold'' 40]\<rparr>
        = Some (run_ctx0\<lparr>kvstore := [''SR1'' \<mapsto> ()]\<rparr>)"
    by (simp add: setPaychan_def key_SR1 wire_keeper_def run_ctx0_def)
  then show ?thesis
    by (simp add: wire_GetPaychan key_SR1 zero_Paychan_def run_ctx0_def run_ctx1_def)
qed

lemma ClosePaychan_negative_id:
  assumes "sint cid < 0"
  shows "\<exists>e. ClosePaychan k ctx sndr rcvr cid ra = Some (Inl e, ctx)"
  using assms by (simp add: ClosePaychan_def)

lemma ClosePaychan_negative_id_error:
  assumes "sndr \<noteq> []" "rcvr \<noteq> []" "ra \<noteq> []" "sint cid < 0"
  shows "ClosePaychan k ctx sndr rcvr cid ra = Some (Inl (ErrInvalidAddress (Itoa (sint cid))), ctx)"
  using assms by (simp add: ClosePaychan_def)

text \<open>
  C10. \<open>GetPaychan\<close> validates nothing. For every sender, receiver and id, empty addresses
  and negative ids included, it returns the zero-value channel with \<open>found = False\<close> when
  the encoded key is absent, and it finds a channel exactly when the encoded key holds a
  record that decodes. \<open>CreatePaychan\<close> and \<open>ClosePaychan\<close> are the ones that reject
  such arguments: an empty address gets \<open>ErrInvalidAddress\<close> from both, a negative id gets
  an error from \<open>ClosePaychan\<close>.
\<close>

theorem GetPaychan_no_validation:
  "(kvstore ctx (paychanKey sndr rcvr cid) = None \<longrightarrow>
      GetPaychan k ctx sndr rcvr cid = Some (zero_Paychan, False))
   \<and> (GetPaychan k ctx sndr rcvr cid = Some (pych, True) \<longleftrightarrow>
        (\<exists>bz. kvstore ctx (paychanKey sndr rcvr cid) = Some bz \<and> UnmarshalBinary (cdc k) bz = Some pych))
   \<and> (sndr = [] \<or> rcvr = [] \<longrightarrow>
        CreatePaychan k ctx sndr rcvr amount = Some (Inl (ErrInvalidAddress []), ctx)
        \<and> ClosePaychan k ctx sndr rcvr cid ra = Some (Inl (ErrInvalidAddress []), ctx))
   \<and> (sint cid < 0 \<longrightarrow> (\<exists>e. ClosePaychan k ctx sndr rcvr cid ra = Some (Inl e, ctx)))"
proof -
  have a: "kvstore ctx (paychanKey sndr rcvr cid) = None \<longrightarrow>
      GetPaychan k ctx sndr rcvr cid = Some (zero_Paychan, False)"
    by (simp add: GetPaychan_absent)
  have b: "GetPaychan k ctx sndr rcvr cid = Some (pych, True) \<longleftrightarrow>
        (\<exists>bz. kvstore ctx (paychanKey sndr rcvr cid) = Some bz \<and> UnmarshalBinary (cdc k) bz = Some pych)"
    by (rule GetPaychan_found)
  have c: "sndr = [] \<or> rcvr = [] \<longrightarrow>
        CreatePaychan k ctx sndr rcvr amount = Some (Inl (ErrInvalidAddress []), ctx)
        \<and> ClosePaychan k ctx sndr rcvr cid ra = Some (Inl (ErrInvalidAddress []), ctx)"
    by (auto simp: CreatePaychan_def ClosePaychan_def AddressString_Nil)
  have d: "sint cid < 0 \<longrightarrow> (\<exists>e. ClosePaychan k ctx sndr rcvr cid ra = Some (Inl e, ctx))"
    by (simp add: ClosePaychan_negative_id)
  show ?thesis
    by (intro conjI a b c d)
qed

lemma key_SR1_shifted: "paychanKey [] ''SR'' 1 = ''SR1''"
  by (simp add: paychanKey_def Itoa_def formatBits_last digit_def)

theorem GetPaychan_no_validation_witness:
  "kvstore ex_ctx0 (paychanKey [] [] (- 1)) = None
   \<and> GetPaychan id_keeper ex_ctx0 [] [] (- 1) = Some (zero_Paychan, False)
   \<and> GetPaychan id_keeper ex_ctx1 [] ''SR'' 1 = Some (ex_pych [Coin ''gold'' 40], True)
   \<and> CreatePaychan id_keeper ex_ctx1 [] ''SR'' [Coin ''gold'' 15] = Some (Inl (ErrInvalidAddress []), ex_ctx1)
   \<and> ClosePaychan id_keeper ex_ctx1 [] ''SR'' 1 [Coin ''gold'' 15] = Some (Inl (ErrInvalidAddress []), ex_ctx1)
   \<and> sint (- 1 :: 64 word) < 0
   \<and> ClosePaychan id_keeper ex_ctx0 [] [] (- 1) [Coin ''gold'' 15] = Some (Inl (ErrInvalidAddress []), ex_ctx0)"
proof -
  have s0: "kvstore ex_ctx0 (paychanKey [] [] (- 1)) = None"
    by (simp add: ex_ctx0_def)
  have s1: "kvstore ex_ctx1 (paychanKey [] ''SR'' 1) = Some (ex_pych [Coin ''gold'' 40])"
    by (simp add: ex_ctx1_def key_SR1_shifted)
  have u: "UnmarshalBinary (cdc id_keeper) (ex_pych [Coin ''gold'' 40]) = Some (ex_pych [Coin ''gold'' 40])"
    by (simp add: id_keeper_def)
  show ?thesis
    using GetPaychan_no_validation [where ctx = ex_ctx0 and sndr = "[]" and rcvr = "[]" and cid = "- 1"
        and k = id_keeper and ra = "[Coin ''gold'' 15]"]
      GetPaychan_no_validation [where ctx = ex_ctx1 and sndr = "[]" and rcvr = "''SR''" and cid = 1
        and k = id_keeper and pych = "ex_pych [Coin ''gold'' 40]" and ra = "[Coin ''gold'' 15]"
        and amount = "[Coin ''gold'' 15]"]
      s0 s1 u
    by simp
qed

subsection \<open>Where the keeper departs from its description\<close>

text \<open>
  C2. The id of a new channel is meant to be the number of open channels of the pair plus
  one (keeper.go 95). \<open>GetPaychans\<close> returns no channel, so every channel gets id 1: in the
  worked example the second \<open>CreatePaychan\<close> for the pair \<open>S\<close>, \<open>R\<close> succeeds, debits another
  25 gold, and writes its record over the first one under the same key. One record is left,
  and nothing is stored under id 2.
\<close>

theorem second_create_reuses_id:
  "CreatePaychan id_keeper ex_ctx0 ''S'' ''R'' [Coin ''gold'' 40] = Some (Inr [(''sender'', ''S'')], ex_ctx1)
   \<and> CreatePaychan id_keeper ex_ctx1 ''S'' ''R'' [Coin ''gold'' 25] = Some (Inr [(''sender'', ''S'')], ex_ctx1b)
   \<and> kvstore ex_ctx1 ''SR1''
       = Some \<lparr>sender = ''S'', receiver = ''R'', chan_id = 1, balance = [Coin ''gold'' 40]\<rparr>
   \<and> kvstore ex_ctx1b ''SR1''
       = Some \<lparr>sender = ''S'', receiver = ''R'', chan_id = 1, balance = [Coin ''gold'' 25]\<rparr>
   \<and> dom (kvstore ex_ctx1b) = {''SR1''}
   \<and> accounts ex_ctx1b ''S'' = Some [Coin ''gold'' 35]
   \<and> GetPaychan id_keeper ex_ctx1b ''S'' ''R'' 2 = Some (zero_Paychan, False)"
proof -
  have "CreatePaychan id_keeper ex_ctx1 ''S'' ''R'' [Coin ''gold'' 25] = Some (Inr [(''sender'', ''S'')], ex_ctx1b)"
    by (simp add: CreatePaychan_def SubtractCoins_def setPaychan_def GetPaychans_def GetCoins_def
      IsPositive_def IsNotNegative_def Minus_def Negative_def key_SR1 id_keeper_def Let_def
      ex_ctx1_def ex_ctx1b_def ex_pych_def)
  moreover have "paychanKey ''S'' ''R'' 2 = ''SR2''"
    by (simp add: paychanKey_def Itoa_def formatBits_last digit_def)
  ultimately show ?thesis
    using ex_create
    by (simp add: ex_ctx1_def ex_ctx1b_def ex_pych_def GetPaychan_def)
qed

text \<open>
  C5. A negative id is refused by \<open>ClosePaychan\<close> with \<open>ErrInvalidAddress\<close>, the error an
  empty address gets (keeper.go 130), and the context is unchanged.
\<close>

theorem negative_id_gets_address_error:
  "ClosePaychan id_keeper ex_ctx1 ''S'' ''R'' (- 1) [Coin ''gold'' 15]
     = Some (Inl (ErrInvalidAddress ''-1''), ex_ctx1)
   \<and> ClosePaychan id_keeper ex_ctx1 [] ''R'' 1 [Coin ''gold'' 15]
     = Some (Inl (ErrInvalidAddress []), ex_ctx1)"
  by (simp add: ClosePaychan_def AddressString_Nil Itoa_def formatBits_last digit_def)

end
